theory Spec2Isabelle
  imports Main
begin

section \<open>Data model\<close>

text \<open>
  The enum \<open>FilteredPieceBehavior\<close> of the shared package, with the two values the
  server code compares against (\<open>'ALLOWED'\<close> and \<open>FilteredPieceBehavior.BLOCKED\<close>).
\<close>

datatype FilteredPieceBehavior = ALLOWED | BLOCKED

text \<open>
  The enum \<open>PlatformRole\<close>: the controller only names \<open>PlatformRole.ADMIN\<close>; every
  other role of the shared package is kept by its name.
\<close>

datatype PlatformRole = ADMIN | OTHER_ROLE string

text \<open>
  The error codes the controllers raise through \<open>ActivepiecesError\<close>.
  \<open>ENTITY_NOT_FOUND\<close> stands for the exception of \<open>getOneOrThrow\<close> and
  \<open>getOneOrFail\<close> on a missing row.
\<close>

datatype ErrorCode = AUTHORIZATION | ENTITY_NOT_FOUND

text \<open>
  A piece as the filter sees it: \<open>{name: string}\<close> plus metadata the filter never reads.
\<close>

record 'm Piece =
  name :: string
  metadata :: 'm

text \<open>
  The platform row. Both filter fields are read through \<open>|| []\<close>, \<open>|| BLOCKED\<close> and
  \<open>!platform.filteredPieceNames\<close>, so each may be absent (\<open>None\<close>). All the other
  columns of the row are \<open>otherFields\<close>.
\<close>

record 'o Platform =
  filteredPieceNames :: "string list option"
  filteredPieceBehavior :: "FilteredPieceBehavior option"
  otherFields :: 'o

text \<open>The persistent state: platforms by id, and the platform role of each user by id.\<close>

record 'o Db =
  platforms :: "string \<rightharpoonup> 'o Platform"
  users :: "string \<rightharpoonup> PlatformRole"

text \<open>
  Modelled from the spec: \<open>platformService.getOneOrThrow(platformId)\<close> lives in the
  platform service, outside the CE directory. There is one durable record per platform,
  and a missing one is an error surfaced to the caller: the row, or the exception.
\<close>

definition getOneOrThrow :: "'o Db \<Rightarrow> string \<Rightarrow> ErrorCode + 'o Platform" where
  "getOneOrThrow db platformId =
     (case platforms db platformId of
        None \<Rightarrow> Inl ENTITY_NOT_FOUND
      | Some platform \<Rightarrow> Inr platform)"

section \<open>The piece filter hook\<close>

text \<open>The parameters of \<open>filterPieces\<close> that the hook destructures.\<close>

record 'm FilterParams =
  platformId :: "string option"
  includeHidden :: bool
  pieces :: "'m Piece list"

text \<open>
  \<open>cmPieceMetadataServiceHooks.filterPieces\<close>. The default hook
  \<open>defaultPieceHooks.filterPieces\<close> is imported from a module outside the CE
  directory; it is the parameter \<open>defaultFilterPieces\<close>.
\<close>

definition filterPieces ::
  "('m FilterParams \<Rightarrow> ErrorCode + 'm Piece list) \<Rightarrow> 'o Db \<Rightarrow> 'm FilterParams
     \<Rightarrow> ErrorCode + 'm Piece list" where
  "filterPieces defaultFilterPieces db params =
     (if includeHidden params \<or> platformId params = None then defaultFilterPieces params
      else
        (case getOneOrThrow db (the (platformId params)) of
           Inl e \<Rightarrow> Inl e
         | Inr platform \<Rightarrow>
             (case filteredPieceNames platform of
                None \<Rightarrow> Inr (pieces params)
              | Some names \<Rightarrow>
                  if length names = 0 then Inr (pieces params)
                  else if filteredPieceBehavior platform = Some ALLOWED
                  then Inr (filter (\<lambda>p. name p \<in> set names) (pieces params))
                  else Inr (filter (\<lambda>p. name p \<notin> set names) (pieces params)))))"

text \<open>
  A store holding one platform \<open>pid\<close> with the given filter configuration, and the
  request of a project of that platform (no \<open>includeHidden\<close>).
\<close>

definition platformWith ::
  "string list option \<Rightarrow> FilteredPieceBehavior option \<Rightarrow> unit Platform" where
  "platformWith names behavior =
     \<lparr>filteredPieceNames = names, filteredPieceBehavior = behavior, otherFields = ()\<rparr>"

definition dbWith :: "string \<Rightarrow> unit Platform \<Rightarrow> unit Db" where
  "dbWith pid platform = \<lparr>platforms = [pid \<mapsto> platform], users = Map.empty\<rparr>"

definition piece :: "string \<Rightarrow> unit Piece" where
  "piece n = \<lparr>name = n, metadata = ()\<rparr>"

text \<open>The default hook as the hook's comment describes it: return all pieces.\<close>

definition returnAllPieces :: "'m FilterParams \<Rightarrow> ErrorCode + 'm Piece list" where
  "returnAllPieces params = Inr (pieces params)"

section \<open>The platform piece service and controller\<close>

text \<open>
  The argument of \<open>platformService.update\<close>: the id is passed beside it; every other
  key may be left out of the object literal (\<open>None\<close>). \<open>upd_otherFields\<close> stands for
  all the keys other than the two filter fields.
\<close>

record 'o UpdateParams =
  upd_filteredPieceNames :: "string list option"
  upd_filteredPieceBehavior :: "FilteredPieceBehavior option"
  upd_otherFields :: "'o option"

text \<open>
  Modelled from the spec: \<open>platformService.update\<close> lives in the platform service,
  outside the CE directory. The spec has the two PATCH endpoints replace the fields
  their bodies carry and store the row as a whole: the update reads the row (which
  must exist), overwrites each field present in the request, keeps every other field,
  and writes the row back.
\<close>

definition platformService_update ::
  "'o Db \<Rightarrow> string \<Rightarrow> 'o UpdateParams \<Rightarrow> ErrorCode + 'o Db" where
  "platformService_update db pid upd =
     (case platforms db pid of
        None \<Rightarrow> Inl ENTITY_NOT_FOUND
      | Some platform \<Rightarrow>
          Inr (db\<lparr>platforms := (platforms db)(pid \<mapsto>
            platform
            \<lparr>filteredPieceNames :=
               (case upd_filteredPieceNames upd of
                  None \<Rightarrow> filteredPieceNames platform | Some ns \<Rightarrow> Some ns),
             filteredPieceBehavior :=
               (case upd_filteredPieceBehavior upd of
                  None \<Rightarrow> filteredPieceBehavior platform | Some b \<Rightarrow> Some b),
             otherFields :=
               (case upd_otherFields upd of
                  None \<Rightarrow> otherFields platform | Some x \<Rightarrow> x)\<rparr>)\<rparr>))"

text \<open>\<open>platform.filteredPieceNames || []\<close>\<close>

definition currentNamesOf :: "'o Platform \<Rightarrow> string list" where
  "currentNamesOf platform =
     (case filteredPieceNames platform of None \<Rightarrow> [] | Some ns \<Rightarrow> ns)"

text \<open>\<open>platform.filteredPieceBehavior || FilteredPieceBehavior.BLOCKED\<close>\<close>

definition behaviorOf :: "'o Platform \<Rightarrow> FilteredPieceBehavior" where
  "behaviorOf platform =
     (case filteredPieceBehavior platform of None \<Rightarrow> BLOCKED | Some b \<Rightarrow> b)"

text \<open>
  The computation of \<open>updatedNames\<close> from \<open>let updatedNames = [...currentNames]\<close> to
  the end of the \<open>if\<close>: lines 196 to 212 of \<open>togglePieceVisibility\<close>, and the same
  text at lines 127 to 143 of the route. \<open>push\<close> appends, \<open>filter\<close> drops every
  occurrence.
\<close>

definition updatedNames ::
  "FilteredPieceBehavior \<Rightarrow> string list \<Rightarrow> string \<Rightarrow> bool \<Rightarrow> string list" where
  "updatedNames behavior currentNames pieceName visible =
     (if behavior = BLOCKED then
        (if \<not> visible \<and> pieceName \<notin> set currentNames then currentNames @ [pieceName]
         else if visible \<and> pieceName \<in> set currentNames
         then filter (\<lambda>n. n \<noteq> pieceName) currentNames
         else currentNames)
      else
        (if visible \<and> pieceName \<notin> set currentNames then currentNames @ [pieceName]
         else if \<not> visible \<and> pieceName \<in> set currentNames
         then filter (\<lambda>n. n \<noteq> pieceName) currentNames
         else currentNames))"

text \<open>What the service functions and the routes return.\<close>

datatype Response =
  ConfigResponse "string list" FilteredPieceBehavior
| SuccessResponse
| ToggleResponse "string list"

text \<open>
  The update the toggle issues: \<open>{id: platformId, filteredPieceNames: updatedNames}\<close>,
  no other key.
\<close>

definition toggleUpdate :: "string list \<Rightarrow> 'o UpdateParams" where
  "toggleUpdate names =
     \<lparr>upd_filteredPieceNames = Some names, upd_filteredPieceBehavior = None,
      upd_otherFields = None\<rparr>"

text \<open>
  \<open>cmPlatformPieceService\<close>. Each function returns its result, or the error thrown,
  together with the store it leaves.
\<close>

definition getFilteredPiecesConfig ::
  "'o Db \<Rightarrow> string \<Rightarrow> (ErrorCode + Response) \<times> 'o Db" where
  "getFilteredPiecesConfig db pid =
     (case getOneOrThrow db pid of
        Inl e \<Rightarrow> (Inl e, db)
      | Inr platform \<Rightarrow>
          (Inr (ConfigResponse (currentNamesOf platform) (behaviorOf platform)), db))"

definition updateFilteredPiecesConfig ::
  "'o Db \<Rightarrow> string \<Rightarrow> string list \<Rightarrow> FilteredPieceBehavior
     \<Rightarrow> (ErrorCode + Response) \<times> 'o Db" where
  "updateFilteredPiecesConfig db pid names behavior =
     (case platformService_update db pid
             \<lparr>upd_filteredPieceNames = Some names,
              upd_filteredPieceBehavior = Some behavior, upd_otherFields = None\<rparr> of
        Inl e \<Rightarrow> (Inl e, db)
      | Inr db' \<Rightarrow> (Inr SuccessResponse, db'))"

definition togglePieceVisibility ::
  "'o Db \<Rightarrow> string \<Rightarrow> string \<Rightarrow> bool \<Rightarrow> (ErrorCode + Response) \<times> 'o Db" where
  "togglePieceVisibility db pid pieceName visible =
     (case getOneOrThrow db pid of
        Inl e \<Rightarrow> (Inl e, db)
      | Inr platform \<Rightarrow>
          (let names = updatedNames (behaviorOf platform) (currentNamesOf platform)
                         pieceName visible
           in case platformService_update db pid (toggleUpdate names) of
                Inl e \<Rightarrow> (Inl e, db)
              | Inr db' \<Rightarrow> (Inr (ToggleResponse names), db')))"

text \<open>
  The principal of a request: \<open>request.principal.id\<close> and
  \<open>request.principal.platform.id\<close>.
\<close>

record Principal =
  principalId :: string
  principalPlatformId :: string

text \<open>
  Modelled from the spec: \<open>userService.getOneOrFail({id})\<close> lives in the user service,
  outside the CE directory; of the user it returns, the controller reads
  \<open>platformRole\<close> only. The role of the user, or the exception when there is none.
\<close>

definition getOneOrFail :: "'o Db \<Rightarrow> string \<Rightarrow> ErrorCode + PlatformRole" where
  "getOneOrFail db userId =
     (case users db userId of
        None \<Rightarrow> Inl ENTITY_NOT_FOUND
      | Some role \<Rightarrow> Inr role)"

text \<open>The helper \<open>isPlatformAdmin\<close> of the controller.\<close>

definition isPlatformAdmin :: "'o Db \<Rightarrow> Principal \<Rightarrow> ErrorCode + bool" where
  "isPlatformAdmin db princ =
     (case getOneOrFail db (principalId princ) of
        Inl e \<Rightarrow> Inl e
      | Inr platformRole \<Rightarrow> Inr (platformRole = ADMIN))"

text \<open>
  The three routes of \<open>cmPlatformPieceController\<close> under \<open>/v1/ce/platform/pieces\<close>:
  \<open>GET /\<close>, \<open>PATCH /\<close> and \<open>PATCH /:pieceName\<close>. Each checks the admin first and
  then does what the service function of the same purpose does.
\<close>

definition route_get :: "'o Db \<Rightarrow> Principal \<Rightarrow> (ErrorCode + Response) \<times> 'o Db" where
  "route_get db princ =
     (case isPlatformAdmin db princ of
        Inl e \<Rightarrow> (Inl e, db)
      | Inr isAdmin \<Rightarrow>
          if \<not> isAdmin then (Inl AUTHORIZATION, db)
          else getFilteredPiecesConfig db (principalPlatformId princ))"

definition route_patch ::
  "'o Db \<Rightarrow> Principal \<Rightarrow> string list \<Rightarrow> FilteredPieceBehavior
     \<Rightarrow> (ErrorCode + Response) \<times> 'o Db" where
  "route_patch db princ names behavior =
     (case isPlatformAdmin db princ of
        Inl e \<Rightarrow> (Inl e, db)
      | Inr isAdmin \<Rightarrow>
          if \<not> isAdmin then (Inl AUTHORIZATION, db)
          else updateFilteredPiecesConfig db (principalPlatformId princ) names behavior)"

definition route_patch_pieceName ::
  "'o Db \<Rightarrow> Principal \<Rightarrow> string \<Rightarrow> bool \<Rightarrow> (ErrorCode + Response) \<times> 'o Db" where
  "route_patch_pieceName db princ pieceName visible =
     (case isPlatformAdmin db princ of
        Inl e \<Rightarrow> (Inl e, db)
      | Inr isAdmin \<Rightarrow>
          if \<not> isAdmin then (Inl AUTHORIZATION, db)
          else togglePieceVisibility db (principalPlatformId princ) pieceName visible)"

text \<open>
  A piece is visible on a platform when the filter hook, run for that platform without
  \<open>includeHidden\<close> over the full piece list, returns it.
\<close>

definition isVisible :: "'o Db \<Rightarrow> string \<Rightarrow> 'm Piece list \<Rightarrow> 'm Piece \<Rightarrow> bool" where
  "isVisible db pid allPieces q =
     (case filterPieces returnAllPieces db
             \<lparr>platformId = Some pid, includeHidden = False, pieces = allPieces\<rparr> of
        Inl e \<Rightarrow> False
      | Inr visiblePieces \<Rightarrow> q \<in> set visiblePieces)"

text \<open>A store with one platform, an admin \<open>u1\<close> and a member \<open>u2\<close>.\<close>

definition exampleDb :: "unit Db" where
  "exampleDb =
     \<lparr>platforms = [''p1'' \<mapsto> platformWith (Some [''slack'']) (Some BLOCKED)],
      users = [''u1'' \<mapsto> ADMIN, ''u2'' \<mapsto> OTHER_ROLE ''MEMBER'']\<rparr>"

section \<open>The trigger poll coordinator\<close>

text \<open>
  The polling helper (\<open>pollingHelper.poll\<close>) belongs to the pieces framework, outside
  the CE directories; the developer notes only show a trigger template that calls it.
  The definitions of this section follow the specification's data model and polling
  algorithm.
\<close>

text \<open>Modelled from the spec: the enum \<open>pollingStrategy\<close> of a trigger registration.\<close>

datatype PollingStrategy = TIMEBASED | LAST_ITEM

text \<open>
  Modelled from the spec: \<open>PolledItem\<close>, the ordering key extracted from a raw item
  and the payload passed through. The key is epoch milliseconds for TIMEBASED and an
  externally supplied ordered key for LAST_ITEM: any linearly ordered type \<open>'k\<close>.
\<close>

record ('k, 'p) PolledItem =
  itemKey :: 'k
  payload :: 'p

text \<open>Modelled from the spec: \<open>TriggerRegistration\<close>, the durable record per trigger.\<close>

record 'k TriggerRegistration =
  triggerId :: string
  pollingStrategy :: PollingStrategy
  watermark :: 'k
  enabled :: bool

text \<open>
  Modelled from the spec: the two errors of a poll tick, a failed fetch and a failed
  hand-off of one item.
\<close>

datatype PollError = FetchError | EmitError

text \<open>
  Modelled from the spec: one poll tick of the coordinator (section 4.2 of the
  specification, steps 1 to 6 and the edge cases; the coordinator itself is part of
  the pieces framework). \<open>fetched\<close> is what the fetch collaborator returned, \<open>emit\<close> tells for
  each item whether the hand-off to the flow runner succeeds. A disabled trigger is not
  polled. A failed fetch leaves the watermark alone. Otherwise the items with a key at
  or below the watermark are discarded, the rest is sorted ascending by key (stable),
  emitted in order up to the first failure, and the watermark becomes the maximum of
  the previous watermark and the keys of the emitted items. The same text serves
  LAST_ITEM, with the supplied key order.
\<close>

definition poll ::
  "('k::linorder) TriggerRegistration \<Rightarrow> PollError + ('k, 'p) PolledItem list
     \<Rightarrow> (('k, 'p) PolledItem \<Rightarrow> bool)
     \<Rightarrow> 'k TriggerRegistration \<times> ('k, 'p) PolledItem list \<times> PollError option" where
  "poll t fetched emit =
     (if \<not> enabled t then (t, [], None)
      else
        (case fetched of
           Inl e \<Rightarrow> (t, [], Some FetchError)
         | Inr items \<Rightarrow>
             (let fresh = filter (\<lambda>i. watermark t < itemKey i) items;
                  ordered = sort_key itemKey fresh;
                  emitted = takeWhile emit ordered;
                  newWatermark = fold (\<lambda>i w. max (itemKey i) w) emitted (watermark t)
              in (t\<lparr>watermark := newWatermark\<rparr>, emitted,
                  if length emitted < length ordered then Some EmitError else None))))"

text \<open>
  Modelled from the spec: a sequence of poll ticks of one trigger, run one after the
  other (polls of one trigger never overlap); the result is the trigger record after
  the last tick and the items each tick emitted.
\<close>

fun runPolls ::
  "('k::linorder) TriggerRegistration
     \<Rightarrow> ((PollError + ('k, 'p) PolledItem list) \<times> (('k, 'p) PolledItem \<Rightarrow> bool)) list
     \<Rightarrow> 'k TriggerRegistration \<times> ('k, 'p) PolledItem list list" where
  "runPolls t [] = (t, [])"
| "runPolls t (tick # ticks) =
     (case poll t (fst tick) (snd tick) of
        (t', emitted, err) \<Rightarrow>
          (case runPolls t' ticks of (t'', rest) \<Rightarrow> (t'', emitted # rest)))"

text \<open>The keys must differ within a fetched batch (a failed fetch has no batch).\<close>

definition distinctKeys :: "PollError + ('k, 'p) PolledItem list \<Rightarrow> bool" where
  "distinctKeys fetched =
     (case fetched of Inl e \<Rightarrow> True | Inr items \<Rightarrow> distinct (map itemKey items))"

text \<open>Sample data: a TIMEBASED trigger at watermark 1000 and flow runners.\<close>

definition trigger1000 :: "int TriggerRegistration" where
  "trigger1000 =
     \<lparr>triggerId = ''t1'', pollingStrategy = TIMEBASED, watermark = 1000, enabled = True\<rparr>"

definition item :: "int \<Rightarrow> string \<Rightarrow> (int, string) PolledItem" where
  "item k p = \<lparr>itemKey = k, payload = p\<rparr>"

definition emitOk :: "(int, string) PolledItem \<Rightarrow> bool" where
  "emitOk i = True"

definition emitFailsOn1100 :: "(int, string) PolledItem \<Rightarrow> bool" where
  "emitFailsOn1100 i = (itemKey i \<noteq> 1100)"

section \<open>The piece filter: empty list, non-empty list, bypass\<close>

lemma filterPieces_found:
  assumes "\<not> includeHidden params" and "platformId params = Some pid"
    and "platforms db pid = Some platform"
  shows "filterPieces d db params =
     (case filteredPieceNames platform of
        None \<Rightarrow> Inr (pieces params)
      | Some names \<Rightarrow>
          if names = [] then Inr (pieces params)
          else if filteredPieceBehavior platform = Some ALLOWED
          then Inr (filter (\<lambda>p. name p \<in> set names) (pieces params))
          else Inr (filter (\<lambda>p. name p \<notin> set names) (pieces params)))"
  using assms by (simp add: filterPieces_def getOneOrThrow_def split: option.splits)




text \<open>
  C2. When \<open>filteredPieceNames\<close> is non-empty, the hook keeps exactly the candidates
  whose name is not in the list under BLOCKED, and exactly those whose name is in the
  list under ALLOWED (in the order of the candidates). With the list
  \<open>["slack", "sheets"]\<close> under BLOCKED and the candidates slack, sheets, gmail the
  result is \<open>[gmail]\<close>.
\<close>

theorem filterPieces_nonempty_names:
  assumes "\<not> includeHidden params" and "platformId params = Some pid"
    and "platforms db pid = Some platform"
    and "filteredPieceNames platform = Some names" and "names \<noteq> []"
  shows "(filteredPieceBehavior platform = Some BLOCKED \<longrightarrow>
            filterPieces d db params
              = Inr (filter (\<lambda>p. name p \<notin> set names) (pieces params)))
       \<and> (filteredPieceBehavior platform = Some ALLOWED \<longrightarrow>
            filterPieces d db params
              = Inr (filter (\<lambda>p. name p \<in> set names) (pieces params)))
       \<and> filterPieces returnAllPieces
            (dbWith ''p1'' (platformWith (Some [''slack'', ''sheets'']) (Some BLOCKED)))
            \<lparr>platformId = Some ''p1'', includeHidden = False,
             pieces = [piece ''slack'', piece ''sheets'', piece ''gmail'']\<rparr>
          = Inr [piece ''gmail'']"
proof -
  have general: "filterPieces d db params =
      (if filteredPieceBehavior platform = Some ALLOWED
       then Inr (filter (\<lambda>p. name p \<in> set names) (pieces params))
       else Inr (filter (\<lambda>p. name p \<notin> set names) (pieces params)))"
    using assms(4,5) filterPieces_found [OF assms(1,2,3), of d] by simp
  have scenario: "filterPieces returnAllPieces
            (dbWith ''p1'' (platformWith (Some [''slack'', ''sheets'']) (Some BLOCKED)))
            \<lparr>platformId = Some ''p1'', includeHidden = False,
             pieces = [piece ''slack'', piece ''sheets'', piece ''gmail'']\<rparr>
          = Inr [piece ''gmail'']"
    by (simp add: filterPieces_def getOneOrThrow_def dbWith_def platformWith_def piece_def)
  from general scenario show ?thesis by simp
qed

theorem filterPieces_nonempty_names_witness:
  "filterPieces returnAllPieces
     (dbWith ''p1'' (platformWith (Some [''slack'']) (Some ALLOWED)))
     \<lparr>platformId = Some ''p1'', includeHidden = False,
      pieces = [piece ''slack'', piece ''gmail'']\<rparr>
   = Inr [piece ''slack'']"
  using filterPieces_nonempty_names
    [of "\<lparr>platformId = Some ''p1'', includeHidden = False,
          pieces = [piece ''slack'', piece ''gmail'']\<rparr>"
        "''p1''" "dbWith ''p1'' (platformWith (Some [''slack'']) (Some ALLOWED))"
        "platformWith (Some [''slack'']) (Some ALLOWED)" "[''slack'']" returnAllPieces]
  by (simp add: dbWith_def platformWith_def piece_def)

text \<open>
  C9. When \<open>includeHidden\<close> is true or \<open>platformId\<close> is nil, the hook returns what
  the default hook returns on the same parameters, for every store: the platform's
  \<open>filteredPieceNames\<close> and \<open>filteredPieceBehavior\<close> are not read (the platform need
  not even exist). With the default hook that returns all pieces, the result is the
  unfiltered candidate list.
\<close>

theorem filterPieces_bypass:
  assumes "includeHidden params \<or> platformId params = None"
  shows "filterPieces d db params = d params
       \<and> filterPieces returnAllPieces db params = Inr (pieces params)"
  using assms by (auto simp: filterPieces_def returnAllPieces_def)

theorem filterPieces_bypass_witness:
  "filterPieces returnAllPieces
     (dbWith ''p1'' (platformWith (Some [''slack'']) (Some BLOCKED)))
     \<lparr>platformId = Some ''p1'', includeHidden = True,
      pieces = [piece ''slack'', piece ''gmail'']\<rparr>
   = Inr [piece ''slack'', piece ''gmail'']"
  using filterPieces_bypass
    [of "\<lparr>platformId = Some ''p1'', includeHidden = True,
          pieces = [piece ''slack'', piece ''gmail'']\<rparr>"
        returnAllPieces "dbWith ''p1'' (platformWith (Some [''slack'']) (Some BLOCKED))"]
  by (simp add: returnAllPieces_def)

section \<open>The visibility toggle\<close>

lemma toggle_found:
  assumes "platforms db pid = Some platform"
  shows "togglePieceVisibility db pid p v =
     (Inr (ToggleResponse (updatedNames (behaviorOf platform) (currentNamesOf platform) p v)),
      db\<lparr>platforms := (platforms db)(pid \<mapsto>
           platform\<lparr>filteredPieceNames :=
             Some (updatedNames (behaviorOf platform) (currentNamesOf platform) p v)\<rparr>)\<rparr>)"
  using assms
  by (simp add: togglePieceVisibility_def getOneOrThrow_def platformService_update_def
      toggleUpdate_def Let_def)



lemma set_updatedNames:
  "set (updatedNames b ns p v) =
     (if (b = BLOCKED) = v then set ns - {p} else insert p (set ns))"
  by (cases b; cases v) (auto simp: updatedNames_def)

lemma isVisible_found:
  assumes "platforms db pid = Some platform"
  shows "isVisible db pid allPieces q =
     (q \<in> set allPieces \<and>
      (currentNamesOf platform = [] \<or>
       (if filteredPieceBehavior platform = Some ALLOWED
        then name q \<in> set (currentNamesOf platform)
        else name q \<notin> set (currentNamesOf platform))))"
  using assms
  by (auto simp: isVisible_def filterPieces_def getOneOrThrow_def currentNamesOf_def
      split: option.splits)

lemma currentNamesOf_update:
  "currentNamesOf (platform\<lparr>filteredPieceNames := Some ns\<rparr>) = ns"
  by (simp add: currentNamesOf_def)

lemma behaviorOf_ALLOWED:
  "(filteredPieceBehavior platform = Some ALLOWED) = (behaviorOf platform = ALLOWED)"
  by (cases "filteredPieceBehavior platform") (auto simp: behaviorOf_def)

text \<open>
  Where the toggle and the filter hook agree. Let the platform's behaviour be BLOCKED
  (or unset), or let it be ALLOWED with a list that is non-empty both before and after
  the toggle. Then after \<open>togglePieceVisibility\<close> for piece name \<open>p\<close> and desired
  visibility \<open>v\<close>, every piece named \<open>p\<close> of the full piece list is returned by the
  filter hook exactly when \<open>v\<close> is true, and every other piece is returned exactly
  when it was before.
\<close>

lemma toggle_visibility_agrees:
  assumes "platforms db pid = Some platform"
    and "q \<in> set allPieces"
    and "behaviorOf platform = BLOCKED
         \<or> (currentNamesOf platform \<noteq> []
            \<and> updatedNames ALLOWED (currentNamesOf platform) p v \<noteq> [])"
  shows "isVisible (snd (togglePieceVisibility db pid p v)) pid allPieces q
         = (if name q = p then v else isVisible db pid allPieces q)"
proof -
  let ?b = "behaviorOf platform"
  let ?ns = "currentNamesOf platform"
  let ?ns' = "updatedNames ?b ?ns p v"
  let ?platform' = "platform\<lparr>filteredPieceNames := Some ?ns'\<rparr>"
  let ?db' = "db\<lparr>platforms := (platforms db)(pid \<mapsto> ?platform')\<rparr>"
  have after: "snd (togglePieceVisibility db pid p v) = ?db'"
    by (simp add: toggle_found [OF assms(1)])
  have found': "platforms ?db' pid = Some ?platform'" by simp
  have set': "set ?ns' = (if (?b = BLOCKED) = v then set ?ns - {p} else insert p (set ?ns))"
    by (rule set_updatedNames)
  have vis': "isVisible ?db' pid allPieces q =
      (?ns' = [] \<or> (if ?b = ALLOWED then name q \<in> set ?ns' else name q \<notin> set ?ns'))"
    using assms(2)
    by (simp add: isVisible_found [OF found'] currentNamesOf_update behaviorOf_ALLOWED)
  have vis: "isVisible db pid allPieces q =
      (?ns = [] \<or> (if ?b = ALLOWED then name q \<in> set ?ns else name q \<notin> set ?ns))"
    using assms(2) by (simp add: isVisible_found [OF assms(1)] behaviorOf_ALLOWED)
  show ?thesis
  proof (cases "?b")
    case BLOCKED
    have "?ns' = [] \<Longrightarrow> name q \<notin> set ?ns'" by simp
    then have "isVisible ?db' pid allPieces q = (name q \<notin> set ?ns')"
      using vis' BLOCKED by auto
    moreover have "isVisible db pid allPieces q = (name q \<notin> set ?ns)"
      using vis BLOCKED by auto
    ultimately show ?thesis using set' BLOCKED after by auto
  next
    case ALLOWED
    with assms(3) have ne: "?ns \<noteq> []" "?ns' \<noteq> []" by auto
    have "isVisible ?db' pid allPieces q = (name q \<in> set ?ns')"
      using vis' ALLOWED ne by simp
    moreover have "isVisible db pid allPieces q = (name q \<in> set ?ns)"
      using vis ALLOWED ne by simp
    ultimately show ?thesis using set' ALLOWED after by auto
  qed
qed

lemma toggle_visibility_agrees_example:
  "isVisible
     (snd (togglePieceVisibility
        (dbWith ''p1'' (platformWith (Some [''slack'', ''sheets'']) (Some BLOCKED)))
        ''p1'' ''slack'' True))
     ''p1'' [piece ''slack'', piece ''sheets'', piece ''gmail''] (piece ''slack'')
   = True"
  using toggle_visibility_agrees
    [of "dbWith ''p1'' (platformWith (Some [''slack'', ''sheets'']) (Some BLOCKED))"
        "''p1''" "platformWith (Some [''slack'', ''sheets'']) (Some BLOCKED)"
        "piece ''slack''" "[piece ''slack'', piece ''sheets'', piece ''gmail'']"
        "''slack''" True]
  by (simp add: dbWith_def platformWith_def piece_def behaviorOf_def)

text \<open>
  C3. After the toggle for piece \<open>p\<close> and desired visibility \<open>v\<close>, \<open>p\<close> should be
  visible exactly when \<open>v\<close> is true and every other piece as before. The code breaks
  this under ALLOWED when the toggle empties the list: on the allow-list \<open>["slack"]\<close>,
  hiding \<open>slack\<close> stores \<open>[]\<close>, on which the filter hook returns every piece, so
  \<open>slack\<close> is still visible and \<open>gmail\<close>, hidden before, is visible now. The
  toggle's comment says that removing from the list disallows the piece, and on the
  allow-list \<open>["slack", "sheets"]\<close> the same call does hide \<open>slack\<close> and keeps
  \<open>gmail\<close> hidden.
\<close>

theorem toggle_allowed_last_name_shows_all:
  "fst (togglePieceVisibility
          (dbWith ''p1'' (platformWith (Some [''slack'']) (Some ALLOWED)))
          ''p1'' ''slack'' False)
     = Inr (ToggleResponse [])
   \<and> isVisible
     (snd (togglePieceVisibility
        (dbWith ''p1'' (platformWith (Some [''slack'']) (Some ALLOWED)))
        ''p1'' ''slack'' False))
     ''p1'' [piece ''slack'', piece ''gmail''] (piece ''slack'')
   \<and> \<not> isVisible (dbWith ''p1'' (platformWith (Some [''slack'']) (Some ALLOWED)))
     ''p1'' [piece ''slack'', piece ''gmail''] (piece ''gmail'')
   \<and> isVisible
     (snd (togglePieceVisibility
        (dbWith ''p1'' (platformWith (Some [''slack'']) (Some ALLOWED)))
        ''p1'' ''slack'' False))
     ''p1'' [piece ''slack'', piece ''gmail''] (piece ''gmail'')
   \<and> \<not> isVisible
     (snd (togglePieceVisibility
        (dbWith ''p1'' (platformWith (Some [''slack'', ''sheets'']) (Some ALLOWED)))
        ''p1'' ''slack'' False))
     ''p1'' [piece ''slack'', piece ''gmail''] (piece ''slack'')
   \<and> \<not> isVisible
     (snd (togglePieceVisibility
        (dbWith ''p1'' (platformWith (Some [''slack'', ''sheets'']) (Some ALLOWED)))
        ''p1'' ''slack'' False))
     ''p1'' [piece ''slack'', piece ''gmail''] (piece ''gmail'')"
  by (simp add: isVisible_def filterPieces_def getOneOrThrow_def togglePieceVisibility_def
      platformService_update_def toggleUpdate_def updatedNames_def behaviorOf_def
      currentNamesOf_def dbWith_def platformWith_def piece_def Let_def)










text \<open>
  C6 (as the code has it). When the principal is not a platform admin, each of the
  three routes (get config, replace config, single-piece visibility patch) fails and
  leaves the store exactly as it was, so the platform's \<open>filteredPieceNames\<close> and
  \<open>filteredPieceBehavior\<close> are unchanged. The error is AUTHORIZATION when the
  principal's user exists (with a platform role other than ADMIN); when the principal
  has no user, it is the exception of \<open>getOneOrFail\<close>, thrown before the admin check.
\<close>

theorem non_admin_rejected:
  assumes "users db (principalId princ) \<noteq> Some ADMIN"
  shows "route_get db princ
           = (Inl (if users db (principalId princ) = None
                   then ENTITY_NOT_FOUND else AUTHORIZATION), db)
       \<and> route_patch db princ names behavior
           = (Inl (if users db (principalId princ) = None
                   then ENTITY_NOT_FOUND else AUTHORIZATION), db)
       \<and> route_patch_pieceName db princ pieceName visible
           = (Inl (if users db (principalId princ) = None
                   then ENTITY_NOT_FOUND else AUTHORIZATION), db)"
  using assms
  by (cases "users db (principalId princ)")
    (simp_all add: route_get_def route_patch_def route_patch_pieceName_def
      isPlatformAdmin_def getOneOrFail_def)

theorem non_admin_rejected_witness:
  "route_get exampleDb \<lparr>principalId = ''u2'', principalPlatformId = ''p1''\<rparr>
     = (Inl AUTHORIZATION, exampleDb)
   \<and> route_patch exampleDb \<lparr>principalId = ''u2'', principalPlatformId = ''p1''\<rparr> [] ALLOWED
     = (Inl AUTHORIZATION, exampleDb)
   \<and> route_patch_pieceName exampleDb \<lparr>principalId = ''u2'', principalPlatformId = ''p1''\<rparr>
       ''slack'' True
     = (Inl AUTHORIZATION, exampleDb)"
  using non_admin_rejected
    [of exampleDb "\<lparr>principalId = ''u2'', principalPlatformId = ''p1''\<rparr>"
        "[]" ALLOWED "''slack''" True]
  by (simp add: exampleDb_def)

text \<open>
  C6 as stated fails for a principal without a user: \<open>u3\<close> is not a platform admin
  (it has no user at all), and the three routes fail with the exception of
  \<open>getOneOrFail\<close>, not with the AUTHORIZATION error. The store is left as it was.
\<close>

theorem no_user_counterexample:
  "users exampleDb ''u3'' \<noteq> Some ADMIN
   \<and> route_get exampleDb \<lparr>principalId = ''u3'', principalPlatformId = ''p1''\<rparr>
     = (Inl ENTITY_NOT_FOUND, exampleDb)
   \<and> route_patch exampleDb \<lparr>principalId = ''u3'', principalPlatformId = ''p1''\<rparr> [] ALLOWED
     = (Inl ENTITY_NOT_FOUND, exampleDb)
   \<and> route_patch_pieceName exampleDb \<lparr>principalId = ''u3'', principalPlatformId = ''p1''\<rparr>
       ''slack'' True
     = (Inl ENTITY_NOT_FOUND, exampleDb)
   \<and> fst (route_get exampleDb \<lparr>principalId = ''u3'', principalPlatformId = ''p1''\<rparr>)
     \<noteq> Inl AUTHORIZATION"
  by (simp add: route_get_def route_patch_def route_patch_pieceName_def isPlatformAdmin_def
      getOneOrFail_def exampleDb_def)

text \<open>
  C10. The update that the toggle issues carries \<open>filteredPieceNames\<close> and nothing
  else (no \<open>filteredPieceBehavior\<close>, no other field). On an existing platform the
  store after \<open>togglePieceVisibility\<close>, and after the route \<open>PATCH /:pieceName\<close>
  called by an admin of that platform, is the store before with only the
  \<open>filteredPieceNames\<close> field of that platform's row replaced:
  \<open>filteredPieceBehavior\<close>, the other fields, the other platforms and the users are
  as before.
\<close>

theorem toggle_writes_only_names:
  assumes "platforms db pid = Some platform"
  shows "upd_filteredPieceBehavior (toggleUpdate ns :: 'o UpdateParams) = None
       \<and> upd_otherFields (toggleUpdate ns :: 'o UpdateParams) = None
       \<and> (\<exists>names'. snd (togglePieceVisibility db pid p v)
             = db\<lparr>platforms := (platforms db)(pid \<mapsto>
                    platform\<lparr>filteredPieceNames := Some names'\<rparr>)\<rparr>)
       \<and> map_option filteredPieceBehavior
             (platforms (snd (togglePieceVisibility db pid p v)) pid)
           = Some (filteredPieceBehavior platform)
       \<and> map_option otherFields (platforms (snd (togglePieceVisibility db pid p v)) pid)
           = Some (otherFields (platform :: 'o Platform))
       \<and> (users db (principalId princ) = Some ADMIN \<and> principalPlatformId princ = pid
            \<longrightarrow> (\<exists>names'. snd (route_patch_pieceName db princ p v)
                   = db\<lparr>platforms := (platforms db)(pid \<mapsto>
                          platform\<lparr>filteredPieceNames := Some names'\<rparr>)\<rparr>))"
  by (auto simp: toggle_found [OF assms] toggleUpdate_def route_patch_pieceName_def
      isPlatformAdmin_def getOneOrFail_def)

theorem toggle_writes_only_names_witness:
  "map_option filteredPieceBehavior
     (platforms (snd (togglePieceVisibility exampleDb ''p1'' ''gmail'' False)) ''p1'')
   = Some (Some BLOCKED)
   \<and> users (snd (route_patch_pieceName exampleDb
        \<lparr>principalId = ''u1'', principalPlatformId = ''p1''\<rparr> ''gmail'' False))
     = users exampleDb"
  using toggle_writes_only_names
    [of exampleDb "''p1''" "platformWith (Some [''slack'']) (Some BLOCKED)" "[]"
        "''gmail''" False "\<lparr>principalId = ''u1'', principalPlatformId = ''p1''\<rparr>"]
  by (auto simp: exampleDb_def platformWith_def)

section \<open>The trigger poll coordinator: watermark and emission\<close>

lemma fold_max_ge: "w \<le> fold (\<lambda>i w. max (itemKey i) w) xs (w::'k::linorder)"
proof (induction xs arbitrary: w)
  case Nil show ?case by simp
next
  case (Cons x xs)
  have "w \<le> max (itemKey x) w" by simp
  also have "\<dots> \<le> fold (\<lambda>i w. max (itemKey i) w) xs (max (itemKey x) w)" by (rule Cons.IH)
  finally show ?case by simp
qed

lemma fold_max_ge_elem:
  "x \<in> set xs \<Longrightarrow> itemKey x \<le> fold (\<lambda>i w. max (itemKey i) w) xs (w::'k::linorder)"
proof (induction xs arbitrary: w)
  case Nil then show ?case by simp
next
  case (Cons y ys)
  show ?case
  proof (cases "x = y")
    case True
    have "itemKey y \<le> max (itemKey y) w" by simp
    also have "\<dots> \<le> fold (\<lambda>i w. max (itemKey i) w) ys (max (itemKey y) w)"
      by (rule fold_max_ge)
    finally show ?thesis using True by simp
  next
    case False
    with Cons.prems have "x \<in> set ys" by simp
    then show ?thesis using Cons.IH by simp
  qed
qed

lemma poll_watermark_mono: "watermark t \<le> watermark (fst (poll t fetched emit))"
  by (auto simp: poll_def Let_def fold_max_ge split: sum.splits)

lemma poll_emitted_fresh:
  "x \<in> set (fst (snd (poll t fetched emit))) \<Longrightarrow> watermark t < itemKey x"
  by (auto simp: poll_def Let_def split: sum.splits if_splits dest!: set_takeWhileD)

lemma poll_emitted_le_watermark:
  "x \<in> set (fst (snd (poll t fetched emit)))
     \<Longrightarrow> itemKey x \<le> watermark (fst (poll t fetched emit))"
  by (auto simp: poll_def Let_def fold_max_ge_elem split: sum.splits if_splits)

lemma poll_emitted_distinct:
  "distinctKeys fetched \<Longrightarrow> distinct (map itemKey (fst (snd (poll t fetched emit))))"
proof (cases fetched)
  case (Inl e) then show ?thesis by (simp add: poll_def)
next
  case (Inr items)
  assume "distinctKeys fetched"
  with Inr have d: "distinct (map itemKey items)" by (simp add: distinctKeys_def)
  let ?fresh = "filter (\<lambda>i. watermark t < itemKey i) items"
  let ?ordered = "sort_key itemKey ?fresh"
  have "distinct (map itemKey ?fresh)" using d by (rule distinct_map_filter)
  then have "distinct (map itemKey ?ordered)" by (simp add: distinct_map)
  then have "distinct ?ordered" and inj: "inj_on itemKey (set ?ordered)"
    by (simp_all add: distinct_map)
  have "set (takeWhile emit ?ordered) \<subseteq> set ?ordered" by (auto dest: set_takeWhileD)
  with inj have "inj_on itemKey (set (takeWhile emit ?ordered))" by (rule inj_on_subset)
  with \<open>distinct ?ordered\<close>
  have "distinct (map itemKey (takeWhile emit ?ordered))" by (simp add: distinct_map)
  then show ?thesis using Inr by (simp add: poll_def Let_def)
qed

lemma runPolls_Cons_fst:
  "fst (runPolls t (tick # ticks))
   = fst (runPolls (fst (poll t (fst tick) (snd tick))) ticks)"
  by (simp split: prod.splits)

lemma runPolls_Cons_snd:
  "snd (runPolls t (tick # ticks))
   = fst (snd (poll t (fst tick) (snd tick)))
     # snd (runPolls (fst (poll t (fst tick) (snd tick))) ticks)"
  by (simp split: prod.splits)

lemma runPolls_watermark_mono: "watermark t \<le> watermark (fst (runPolls t ticks))"
proof (induction ticks arbitrary: t)
  case Nil show ?case by simp
next
  case (Cons tick ticks)
  let ?t' = "fst (poll t (fst tick) (snd tick))"
  have "watermark t \<le> watermark ?t'" by (rule poll_watermark_mono)
  also have "\<dots> \<le> watermark (fst (runPolls ?t' ticks))" by (rule Cons.IH)
  finally show ?case by (simp only: runPolls_Cons_fst)
qed

lemma runPolls_append:
  "runPolls t (ticks @ later) =
     (case runPolls t ticks of (t', ems) \<Rightarrow>
        (case runPolls t' later of (t'', ems') \<Rightarrow> (t'', ems @ ems')))"
  by (induction ticks arbitrary: t) (auto split: prod.splits)

lemma runPolls_emitted_fresh:
  "x \<in> set (concat (snd (runPolls t ticks))) \<Longrightarrow> watermark t < itemKey x"
proof (induction ticks arbitrary: t)
  case Nil then show ?case by simp
next
  case (Cons tick ticks)
  obtain t' emitted err where p: "poll t (fst tick) (snd tick) = (t', emitted, err)"
    by (cases "poll t (fst tick) (snd tick)") auto
  have mono: "watermark t \<le> watermark t'"
    using poll_watermark_mono [of t "fst tick" "snd tick"] p by simp
  from Cons.prems p
  have "x \<in> set emitted \<or> x \<in> set (concat (snd (runPolls t' ticks)))"
    by (auto split: prod.splits)
  then show ?case
  proof
    assume "x \<in> set emitted"
    then show ?thesis using poll_emitted_fresh [of x t "fst tick" "snd tick"] p by simp
  next
    assume "x \<in> set (concat (snd (runPolls t' ticks)))"
    then have "watermark t' < itemKey x" by (rule Cons.IH)
    with mono show ?thesis by simp
  qed
qed

lemma runPolls_length: "length (snd (runPolls t ticks)) = length ticks"
proof (induction ticks arbitrary: t)
  case Nil show ?case by simp
next
  case (Cons tick ticks)
  show ?case by (simp only: runPolls_Cons_snd list.size Cons.IH)
qed

lemma runPolls_later_greater:
  "i < j \<Longrightarrow> j < length (snd (runPolls t ticks))
   \<Longrightarrow> x \<in> set (snd (runPolls t ticks) ! i) \<Longrightarrow> y \<in> set (snd (runPolls t ticks) ! j)
   \<Longrightarrow> itemKey x < itemKey y"
proof (induction ticks arbitrary: t i j)
  case Nil then show ?case by simp
next
  case (Cons tick ticks)
  obtain t' emitted err where p: "poll t (fst tick) (snd tick) = (t', emitted, err)"
    by (cases "poll t (fst tick) (snd tick)") auto
  obtain t'' rest where r: "runPolls t' ticks = (t'', rest)"
    by (cases "runPolls t' ticks") auto
  have ems: "snd (runPolls t (tick # ticks)) = emitted # rest" using p r by simp
  from Cons.prems(1) obtain j' where j: "j = Suc j'" by (cases j) auto
  with Cons.prems(2,4) ems have j'len: "j' < length rest" and y: "y \<in> set (rest ! j')"
    by simp_all
  show ?case
  proof (cases i)
    case 0
    with Cons.prems(3) ems have "x \<in> set emitted" by simp
    then have "itemKey x \<le> watermark t'"
      using poll_emitted_le_watermark [of x t "fst tick" "snd tick"] p by simp
    moreover have "y \<in> set (concat (snd (runPolls t' ticks)))"
      using y j'len r by auto
    then have "watermark t' < itemKey y" by (rule runPolls_emitted_fresh)
    ultimately show ?thesis by simp
  next
    case (Suc i')
    with Cons.prems(1,3) j ems have "i' < j'" and "x \<in> set (rest ! i')" by simp_all
    then show ?thesis using Cons.IH [of i' j' t'] j'len y r by simp
  qed
qed

lemma runPolls_distinct:
  "\<forall>tick \<in> set ticks. distinctKeys (fst tick)
   \<Longrightarrow> distinct (map itemKey (concat (snd (runPolls t ticks))))"
proof (induction ticks arbitrary: t)
  case Nil then show ?case by simp
next
  case (Cons tick ticks)
  obtain t' emitted err where p: "poll t (fst tick) (snd tick) = (t', emitted, err)"
    by (cases "poll t (fst tick) (snd tick)") auto
  obtain t'' rest where r: "runPolls t' ticks = (t'', rest)"
    by (cases "runPolls t' ticks") auto
  have d1: "distinct (map itemKey emitted)"
    using poll_emitted_distinct [of "fst tick" t "snd tick"] Cons.prems p by simp
  have d2: "distinct (map itemKey (concat rest))"
    using Cons.IH [of t'] Cons.prems r by simp
  have "itemKey x < itemKey y" if "x \<in> set emitted" and "y \<in> set (concat rest)" for x y
  proof -
    have "itemKey x \<le> watermark t'"
      using poll_emitted_le_watermark [of x t "fst tick" "snd tick"] p that(1) by simp
    moreover have "watermark t' < itemKey y"
      using runPolls_emitted_fresh [of y t' ticks] r that(2) by simp
    ultimately show ?thesis by simp
  qed
  then have "itemKey ` set emitted \<inter> itemKey ` set (concat rest) = {}" by fastforce
  with d1 d2 show ?case using p r by simp
qed

lemmas poll_eval = poll_def trigger1000_def item_def emitOk_def
  emitFailsOn1100_def Let_def distinctKeys_def

text \<open>
  C7. The watermark never decreases: one poll tick leaves a watermark greater than or
  equal to the previous one, any sequence of poll ticks leaves a watermark greater
  than or equal to the one it started from, and running further ticks after a
  sequence never lowers the watermark that sequence reached.
\<close>

theorem watermark_never_decreases:
  "watermark t \<le> watermark (fst (poll t fetched emit))
   \<and> watermark t \<le> watermark (fst (runPolls t ticks))
   \<and> watermark (fst (runPolls t ticks)) \<le> watermark (fst (runPolls t (ticks @ later)))"
proof (intro conjI)
  show "watermark t \<le> watermark (fst (poll t fetched emit))"
    by (rule poll_watermark_mono)
  show "watermark t \<le> watermark (fst (runPolls t ticks))"
    by (rule runPolls_watermark_mono)
  have "fst (runPolls t (ticks @ later)) = fst (runPolls (fst (runPolls t ticks)) later)"
    by (simp add: runPolls_append split: prod.splits)
  then show "watermark (fst (runPolls t ticks)) \<le> watermark (fst (runPolls t (ticks @ later)))"
    by (simp add: runPolls_watermark_mono)
qed

theorem watermark_never_decreases_witness:
  "watermark trigger1000
     \<le> watermark (fst (poll trigger1000
          (Inr [item 900 ''a'', item 1000 ''b'', item 1100 ''c'', item 1200 ''d'']) emitOk))
   \<and> watermark (fst (poll trigger1000
          (Inr [item 900 ''a'', item 1000 ''b'', item 1100 ''c'', item 1200 ''d'']) emitOk))
     = 1200"
  using watermark_never_decreases
    [of trigger1000 "Inr [item 900 ''a'', item 1000 ''b'', item 1100 ''c'', item 1200 ''d'']"
        emitOk "[]" "[]"]
  by (simp add: poll_eval)

text \<open>
  C8 as stated fails when a fetched batch has two items with the same key (a
  non-decreasing batch may): at watermark 1000 the batch with keys 1100, 1100 is
  emitted whole, so the key 1100 is emitted twice.
\<close>

theorem same_key_in_batch_counterexample:
  "sorted (map itemKey [item 1100 ''a'', item 1100 ''b''])
   \<and> map itemKey (concat (snd (runPolls trigger1000
        [(Inr [item 1100 ''a'', item 1100 ''b''], emitOk)]))) = [1100, 1100]
   \<and> \<not> distinct (map itemKey (concat (snd (runPolls trigger1000
        [(Inr [item 1100 ''a'', item 1100 ''b''], emitOk)]))))"
  by (simp add: poll_eval)

text \<open>
  C8 (as the polling algorithm has it). An item whose key is less than or equal to the
  stored watermark at poll time is never emitted: every emitted item has a key above
  it. Across a sequence of polls, every key a later poll emits is greater than every
  key an earlier poll emitted, so no key emitted by one poll is emitted again by
  another. And when no fetched batch holds two items with the same key, no key is
  emitted twice across the whole sequence. The order is that of the key type: epoch
  milliseconds for TIMEBASED, the supplied key order for LAST_ITEM.
\<close>

theorem no_reemission:
  "(\<forall>x \<in> set (fst (snd (poll t fetched emit))). watermark t < itemKey x)
   \<and> (\<forall>i j. i < j \<and> j < length ticks \<longrightarrow>
        (\<forall>x \<in> set (snd (runPolls t ticks) ! i).
         \<forall>y \<in> set (snd (runPolls t ticks) ! j). itemKey x < itemKey y))
   \<and> ((\<forall>tick \<in> set ticks. distinctKeys (fst tick))
        \<longrightarrow> distinct (map itemKey (concat (snd (runPolls t ticks)))))"
proof (intro conjI ballI allI impI)
  fix x assume "x \<in> set (fst (snd (poll t fetched emit)))"
  then show "watermark t < itemKey x" by (rule poll_emitted_fresh)
next
  fix i j x y
  assume "i < j \<and> j < length ticks"
    and "x \<in> set (snd (runPolls t ticks) ! i)" and "y \<in> set (snd (runPolls t ticks) ! j)"
  then show "itemKey x < itemKey y"
    using runPolls_later_greater [of i j t ticks x y] by (simp add: runPolls_length)
next
  assume "\<forall>tick \<in> set ticks. distinctKeys (fst tick)"
  then show "distinct (map itemKey (concat (snd (runPolls t ticks))))"
    by (rule runPolls_distinct)
qed

theorem no_reemission_witness:
  "map itemKey (concat (snd (runPolls trigger1000
      [(Inr [item 900 ''a'', item 1100 ''c''], emitOk),
       (Inr [item 1100 ''c'', item 1200 ''d''], emitOk)]))) = [1100, 1200]
   \<and> distinct (map itemKey (concat (snd (runPolls trigger1000
      [(Inr [item 900 ''a'', item 1100 ''c''], emitOk),
       (Inr [item 1100 ''c'', item 1200 ''d''], emitOk)]))))"
  using no_reemission
    [of trigger1000 "Inr [item 900 ''a'', item 1100 ''c'']" emitOk
        "[(Inr [item 900 ''a'', item 1100 ''c''], emitOk),
          (Inr [item 1100 ''c'', item 1200 ''d''], emitOk)]"]
  by (simp add: poll_eval)

end
